theory Spec2Isabelle
  imports Complex_Main
begin

section \<open>Data model\<close>

text \<open>
  The program is \<^verbatim>\<open>plot_trader_bubblemap\<close> of \<^verbatim>\<open>graph.py\<close> and the chain check of
  \<^verbatim>\<open>get_evm_traders_and_connections\<close> of \<^verbatim>\<open>queries.py\<close>.

  Python floats are idealised as real numbers: no rounding and no overflow. The special
  values that \<^verbatim>\<open>float()\<close> can return for a string (\<^verbatim>\<open>inf\<close>, \<^verbatim>\<open>nan\<close>) are
  kept apart in \<open>pyfloat\<close>. Strings are byte strings, so only ASCII digits, letters and
  white space are recognised.
\<close>

datatype py_error =
  TypeError | ValueError | AssertionError
  | FileNotFoundError | FileExistsError | NotADirectoryError | IsADirectoryError

datatype pyfloat = Fin real | PInf | NInf | NaN

text \<open>
  A cell of the column \<^verbatim>\<open>total_usd_traded\<close>: a number, or a string (object column).
  A missing value in this column is not modelled.
\<close>

datatype cell = Num real | Str string

text \<open>
  One row of the data frame. Only the three columns that \<^verbatim>\<open>plot_trader_bubblemap\<close> reads
  and the \<^verbatim>\<open>type\<close> column are kept; a missing value (NaN, None) is \<open>None\<close>.
\<close>

record row =
  type_col :: string
  address :: "string option"
  target_address :: "string option"
  total_usd_traded :: cell

text \<open>A row that survived \<^verbatim>\<open>dropna\<close>: both address columns hold a value.\<close>

record retained =
  from_addr :: string
  to_addr :: string
  usd :: cell

section \<open>Line 45: dropna\<close>

fun dropna :: "row list \<Rightarrow> retained list" where
  "dropna [] = []"
| "dropna (r # df) =
     (case address r of
        None \<Rightarrow> dropna df
      | Some a \<Rightarrow>
          (case target_address r of
             None \<Rightarrow> dropna df
           | Some b \<Rightarrow> \<lparr>from_addr = a, to_addr = b, usd = total_usd_traded r\<rparr> # dropna df))"

section \<open>Lines 49-51: volume per address\<close>

text \<open>
  \<^verbatim>\<open>groupby(key)['total_usd_traded'].sum()\<close>: one accumulator per key, to which the
  rows of the key are added in order. A column that holds a string is an object column: its group sums, the
  \<^verbatim>\<open>add(..., fill_value=0)\<close> of line 51 and the subtraction of lines 83 and 89 then
  compute \<^verbatim>\<open>str + float\<close>, \<^verbatim>\<open>str + 0\<close> or \<^verbatim>\<open>str - str\<close>, and Python raises TypeError
  before the function returns; the model raises it here.
\<close>

fun group_sum :: "(string \<times> cell) list \<Rightarrow> (string \<rightharpoonup> real) \<Rightarrow> py_error + (string \<rightharpoonup> real)" where
  "group_sum [] m = Inr m"
| "group_sum ((k, Num x) # kvs) m =
     group_sum kvs (m(k \<mapsto> (case m k of None \<Rightarrow> 0 | Some s \<Rightarrow> s) + x))"
| "group_sum ((k, Str s) # kvs) m = Inl TypeError"

text \<open>\<^verbatim>\<open>volume_from.add(volume_to, fill_value=0)\<close>: the union of the two indexes.\<close>

definition series_add :: "(string \<rightharpoonup> real) \<Rightarrow> (string \<rightharpoonup> real) \<Rightarrow> (string \<rightharpoonup> real)" where
  "series_add f t k =
     (case f k of
        None \<Rightarrow> (case t k of None \<Rightarrow> None | Some y \<Rightarrow> Some (0 + y))
      | Some x \<Rightarrow> (case t k of None \<Rightarrow> Some (x + 0) | Some y \<Rightarrow> Some (x + y)))"

definition total_volume :: "retained list \<Rightarrow> py_error + (string \<rightharpoonup> real)" where
  "total_volume rows =
     (case group_sum (map (\<lambda>r. (from_addr r, usd r)) rows) Map.empty of
        Inl e \<Rightarrow> Inl e
      | Inr volume_from \<Rightarrow>
          (case group_sum (map (\<lambda>r. (to_addr r, usd r)) rows) Map.empty of
             Inl e \<Rightarrow> Inl e
           | Inr volume_to \<Rightarrow> Inr (series_add volume_from volume_to)))"

text \<open>\<^verbatim>\<open>total_volume.get(node, 0)\<close>\<close>

definition get0 :: "(string \<rightharpoonup> real) \<Rightarrow> string \<Rightarrow> real" where
  "get0 tv node = (case tv node of None \<Rightarrow> 0 | Some v \<Rightarrow> v)"

section \<open>Lines 68-71: the weight of an edge\<close>

text \<open>
  Python's \<^verbatim>\<open>float(s)\<close> on a string: white space is stripped, then an optional sign and
  either \<^verbatim>\<open>inf\<close>, \<^verbatim>\<open>infinity\<close>, \<^verbatim>\<open>nan\<close> (any case) or a decimal number with an optional
  exponent; a single underscore may stand between two digits. Anything else is a
  ValueError.
\<close>

definition is_space :: "char \<Rightarrow> bool" where
  "is_space c = ((of_char c :: nat) \<in> {9, 10, 11, 12, 13, 32})"

definition py_strip :: "string \<Rightarrow> string" where
  "py_strip s = rev (dropWhile is_space (rev (dropWhile is_space s)))"

definition is_digit :: "char \<Rightarrow> bool" where
  "is_digit c = (48 \<le> (of_char c :: nat) \<and> (of_char c :: nat) \<le> 57)"

definition digit_val :: "char \<Rightarrow> nat" where
  "digit_val c = of_char c - 48"

definition ascii_lower :: "char \<Rightarrow> char" where
  "ascii_lower c =
     (case map_of (zip ''ABCDEFGHIJKLMNOPQRSTUVWXYZ'' ''abcdefghijklmnopqrstuvwxyz'') c of
        None \<Rightarrow> c
      | Some l \<Rightarrow> l)"

definition py_lower :: "string \<Rightarrow> string" where
  "py_lower s = map ascii_lower s"

fun digitpart :: "string \<Rightarrow> nat list \<times> string" where
  "digitpart [] = ([], [])"
| "digitpart [c] = (if is_digit c then ([digit_val c], []) else ([], [c]))"
| "digitpart (c # d # s) =
     (if \<not> is_digit c then ([], c # d # s)
      else if is_digit d then (case digitpart (d # s) of (ds, r) \<Rightarrow> (digit_val c # ds, r))
      else if d = CHR ''_'' \<and> (case s of [] \<Rightarrow> False | e # _ \<Rightarrow> is_digit e)
        then (case digitpart s of (ds, r) \<Rightarrow> (digit_val c # ds, r))
      else ([digit_val c], d # s))"

definition digits_nat :: "nat list \<Rightarrow> nat" where
  "digits_nat ds = fold (\<lambda>d acc. 10 * acc + d) ds 0"

definition parse_sign :: "string \<Rightarrow> bool \<times> string" where
  "parse_sign s =
     (case s of
        [] \<Rightarrow> (False, [])
      | c # r \<Rightarrow> if c = CHR ''-'' then (True, r) else if c = CHR ''+'' then (False, r) else (False, s))"

definition parse_number :: "string \<Rightarrow> (real \<times> string) option" where
  "parse_number s =
     (case digitpart s of (ip, r1) \<Rightarrow>
        (case r1 of
           [] \<Rightarrow> if ip = [] then None else Some (real (digits_nat ip), [])
         | c # r2 \<Rightarrow>
             if c = CHR ''.'' then
               (case digitpart r2 of (fp, r3) \<Rightarrow>
                  if ip = [] \<and> fp = [] then None
                  else Some (real (digits_nat ip) + real (digits_nat fp) / 10 ^ length fp, r3))
             else if ip = [] then None
             else Some (real (digits_nat ip), r1)))"

definition parse_exponent :: "string \<Rightarrow> int option" where
  "parse_exponent s =
     (case s of
        [] \<Rightarrow> Some 0
      | c # r \<Rightarrow>
          if c = CHR ''e'' \<or> c = CHR ''E'' then
            (case parse_sign r of (neg, u) \<Rightarrow>
               (case digitpart u of (ds, rest) \<Rightarrow>
                  if ds \<noteq> [] \<and> rest = []
                  then Some ((if neg then - 1 else 1) * int (digits_nat ds))
                  else None))
          else None)"

definition py_float :: "string \<Rightarrow> py_error + pyfloat" where
  "py_float s =
     (case parse_sign (py_strip s) of (neg, u) \<Rightarrow>
        if py_lower u = ''inf'' \<or> py_lower u = ''infinity'' then Inr (if neg then NInf else PInf)
        else if py_lower u = ''nan'' then Inr NaN
        else
          (case parse_number u of
             None \<Rightarrow> Inl ValueError
           | Some (m, r) \<Rightarrow>
               (case parse_exponent r of
                  None \<Rightarrow> Inl ValueError
                | Some e \<Rightarrow>
                    Inr (Fin ((if neg then - 1 else 1) *
                              (if 0 \<le> e then m * 10 ^ nat e else m / 10 ^ nat (- e)))))))"

text \<open>
  \<^verbatim>\<open>float(str(row['total_usd_traded']).replace(',', ''))\<close>. The text of a float has no
  comma and reads back as the same float, so a numeric cell parses to itself.
\<close>

definition parse_cell :: "cell \<Rightarrow> py_error + pyfloat" where
  "parse_cell c =
     (case c of
        Num x \<Rightarrow> Inr (Fin x)
      | Str s \<Rightarrow> py_float (filter (\<lambda>ch. ch \<noteq> CHR '','') s))"

text \<open>The \<^verbatim>\<open>try\<close>/\<^verbatim>\<open>except\<close> of lines 68-71: any failure gives the weight 1.\<close>

definition edge_weight :: "cell \<Rightarrow> pyfloat" where
  "edge_weight c = (case parse_cell c of Inl e \<Rightarrow> Fin 1 | Inr w \<Rightarrow> w)"

section \<open>Lines 54-73: the graph\<close>

text \<open>
  A \<^verbatim>\<open>networkx.Graph\<close>: the nodes in insertion order and, for each node, its neighbours
  with the edge weight, in insertion order (Python dictionaries keep it). The graph is
  undirected: an edge is stored at both of its ends.
\<close>

record graph =
  node_list :: "string list"
  adj :: "string \<Rightarrow> (string \<times> pyfloat) list"

definition empty_graph :: graph where
  "empty_graph = \<lparr>node_list = [], adj = (\<lambda>n. [])\<rparr>"

text \<open>\<^verbatim>\<open>d[k] = v\<close> on a dictionary: an existing key keeps its place, a new key goes last.\<close>

fun dict_set :: "string \<Rightarrow> pyfloat \<Rightarrow> (string \<times> pyfloat) list \<Rightarrow> (string \<times> pyfloat) list" where
  "dict_set k v [] = [(k, v)]"
| "dict_set k v (p # ps) = (if fst p = k then (k, v) # ps else p # dict_set k v ps)"

definition add_node :: "string \<Rightarrow> graph \<Rightarrow> graph" where
  "add_node n G = (if n \<in> set (node_list G) then G else G\<lparr>node_list := node_list G @ [n]\<rparr>)"

definition add_edge :: "string \<Rightarrow> string \<Rightarrow> pyfloat \<Rightarrow> graph \<Rightarrow> graph" where
  "add_edge u v w G =
     (let G1 = add_node u G;
          G2 = add_node v G1;
          a1 = (adj G2)(u := dict_set v w (adj G2 u));
          a2 = a1(v := dict_set u w (a1 v))
      in G2\<lparr>adj := a2\<rparr>)"

text \<open>
  \<^verbatim>\<open>G.edges(data=True)\<close>: for each node in order, its neighbours that were not visited
  before as a node; so each edge is reported once, from the end that comes first.
\<close>

fun edges_from ::
  "(string \<Rightarrow> (string \<times> pyfloat) list) \<Rightarrow> string list \<Rightarrow> string list \<Rightarrow> (string \<times> string \<times> pyfloat) list" where
  "edges_from a seen [] = []"
| "edges_from a seen (n # ns) =
     map (\<lambda>(nbr, w). (n, nbr, w)) (filter (\<lambda>(nbr, w). nbr \<notin> set seen) (a n))
     @ edges_from a (n # seen) ns"

definition edges :: "graph \<Rightarrow> (string \<times> string \<times> pyfloat) list" where
  "edges G = edges_from (adj G) [] (node_list G)"

text \<open>
  Line 57: \<^verbatim>\<open>pd.unique(df[['address', 'target_address']].values.ravel())\<close>, the two
  columns read row by row, each value kept at its first occurrence. Line 58 removes NaN;
  a retained row holds none.
\<close>

definition ravel :: "retained list \<Rightarrow> string list" where
  "ravel rows = concat (map (\<lambda>r. [from_addr r, to_addr r]) rows)"

definition pd_unique :: "string list \<Rightarrow> string list" where
  "pd_unique xs = fold (\<lambda>x acc. if x \<in> set acc then acc else acc @ [x]) xs []"

definition add_row :: "retained \<Rightarrow> graph \<Rightarrow> graph" where
  "add_row r G = add_edge (from_addr r) (to_addr r) (edge_weight (usd r)) G"

definition build_graph :: "retained list \<Rightarrow> graph" where
  "build_graph rows = fold add_row rows (fold add_node (pd_unique (ravel rows)) empty_graph)"

section \<open>Lines 79-98: sizes and colours\<close>

text \<open>
  \<^verbatim>\<open>pd.Series(volumes).median()\<close>: the middle of the sorted values, or the mean of the
  two middle values; NaN (here \<open>None\<close>) for no value at all.
\<close>

definition median :: "real list \<Rightarrow> real option" where
  "median xs =
     (let s = sort xs; n = length s
      in if n = 0 then None
         else if n mod 2 = 1 then Some (s ! (n div 2))
         else Some ((s ! (n div 2 - 1) + s ! (n div 2)) / 2))"

definition high_color :: string where
  "high_color = ''#FF4500''"

definition low_color :: string where
  "low_color = ''#1E90FF''"

definition node_volumes :: "(string \<rightharpoonup> real) \<Rightarrow> string list \<Rightarrow> real list" where
  "node_volumes tv ns = map (get0 tv) ns"

text \<open>
  The pair \<open>(sizes, colors)\<close>. A comparison with a NaN threshold is false in Python, so
  it would give the low colour.
\<close>

definition visual_attributes :: "(string \<rightharpoonup> real) \<Rightarrow> string list \<Rightarrow> real list \<times> string list" where
  "visual_attributes tv ns =
     (case node_volumes tv ns of
        [] \<Rightarrow> (map (\<lambda>n. 10) ns, map (\<lambda>n. low_color) ns)
      | v # vs \<Rightarrow>
          (let min_volume = fold min vs v;
               max_volume = fold max vs v;
               volume_range = (if max_volume \<noteq> min_volume then max_volume - min_volume else 1);
               min_size = 10;
               max_size = 50;
               sizes = map (\<lambda>node. min_size + (max_size - min_size) * (get0 tv node - min_volume) / volume_range) ns;
               threshold = median (v # vs);
               colors = map (\<lambda>node. if (case threshold of None \<Rightarrow> False | Some t \<Rightarrow> get0 tv node \<ge> t)
                                      then high_color else low_color) ns
           in (sizes, colors)))"

section \<open>Lines 100-121: the network and the output file\<close>

text \<open>A node of the pyvis network; the hover text, a formatted float, is left out.\<close>

record net_node =
  nn_id :: string
  nn_label :: string
  nn_size :: real
  nn_color :: string

record network =
  net_nodes :: "net_node list"
  net_edges :: "(string \<times> string \<times> pyfloat) list"

text \<open>\<^verbatim>\<open>node[:6] + "..." + node[-4:]\<close>\<close>

definition label_of :: "string \<Rightarrow> string" where
  "label_of node = take 6 node @ ''...'' @ drop (length node - 4) node"

definition build_network :: "(string \<rightharpoonup> real) \<Rightarrow> graph \<Rightarrow> network" where
  "build_network tv G =
     (case visual_attributes tv (node_list G) of (sizes, colors) \<Rightarrow>
        \<lparr>net_nodes = map (\<lambda>(node, size, color).
                          \<lparr>nn_id = node, nn_label = label_of node, nn_size = size, nn_color = color\<rparr>)
                        (zip (node_list G) (zip sizes colors)),
         net_edges = edges G\<rparr>)"

text \<open>
  The file system as far as the function touches it. A path is read as the operating
  system reads it: absolute or relative to the working directory, and a list of
  components, where empty components and \<^verbatim>\<open>.\<close> do not count. The state holds the
  directories that exist and the files with their content, the network written to them;
  the working directory and the root exist. \<^verbatim>\<open>..\<close> and symbolic links are not
  resolved, and every directory is writable. \<^verbatim>\<open>os.path.join\<close> is the POSIX one.
\<close>

type_synonym path = "bool \<times> string list"

record fs =
  dirs :: "path set"
  files :: "path \<rightharpoonup> network"

text \<open>\<^verbatim>\<open>s.split(d)\<close>\<close>

fun split_on :: "char \<Rightarrow> string \<Rightarrow> string list" where
  "split_on d [] = [[]]"
| "split_on d (c # s) =
     (if c = d then [] # split_on d s
      else (case split_on d s of [] \<Rightarrow> [[c]] | x # xs \<Rightarrow> (c # x) # xs))"

definition path_of :: "string \<Rightarrow> path" where
  "path_of p = (p \<noteq> [] \<and> hd p = CHR ''/'', filter (\<lambda>c. c \<noteq> [] \<and> c \<noteq> ''.'') (split_on CHR ''/'' p))"

definition is_dir :: "fs \<Rightarrow> path \<Rightarrow> bool" where
  "is_dir s p = (snd p = [] \<or> p \<in> dirs s)"

definition is_file :: "fs \<Rightarrow> path \<Rightarrow> bool" where
  "is_file s p = (files s p \<noteq> None)"

text \<open>The directory that holds \<open>p\<close>, and the directories above \<open>p\<close> from the top down.\<close>

definition parent :: "path \<Rightarrow> path" where
  "parent p = (fst p, butlast (snd p))"

definition ancestors :: "path \<Rightarrow> path list" where
  "ancestors p = map (\<lambda>n. (fst p, take n (snd p))) [1 ..< length (snd p)]"

definition os_path_join :: "string \<Rightarrow> string \<Rightarrow> string" where
  "os_path_join a b =
     (if b \<noteq> [] \<and> hd b = CHR ''/'' then b
      else if a = [] \<or> last a = CHR ''/'' then a @ b
      else a @ ''/'' @ b)"

text \<open>
  \<^verbatim>\<open>os.makedirs(d, exist_ok=True)\<close>: the directory and those above it exist afterwards;
  it fails where a file stands in the way.
\<close>

definition makedirs :: "string \<Rightarrow> fs \<Rightarrow> py_error + fs" where
  "makedirs d s =
     (let p = path_of d
      in if \<exists>a \<in> set (ancestors p). is_file s a then Inl NotADirectoryError
         else if is_file s p then Inl FileExistsError
         else Inr (s\<lparr>dirs := dirs s \<union> set (ancestors p) \<union> (if snd p = [] then {} else {p})\<rparr>))"

text \<open>
  The renderer, \<^verbatim>\<open>net.show(name)\<close> of pyvis. It first checks the name,
  \<^verbatim>\<open>assert len(name.split(".")) >= 2\<close> and \<^verbatim>\<open>assert name.split(".")[-1] == "html"\<close>,
  then opens the file for writing, which needs the directory of the file, and writes
  the page; what it writes is the network it was given.
\<close>

definition check_html :: "string \<Rightarrow> bool" where
  "check_html name = (length (split_on CHR ''.'' name) \<ge> 2 \<and> last (split_on CHR ''.'' name) = ''html'')"

definition net_show :: "network \<Rightarrow> string \<Rightarrow> fs \<Rightarrow> py_error + fs" where
  "net_show net name s =
     (let p = path_of name
      in if \<not> check_html name then Inl AssertionError
         else if \<exists>a \<in> set (ancestors p). is_file s a then Inl NotADirectoryError
         else if \<not> is_dir s (parent p) then Inl FileNotFoundError
         else if is_dir s p then Inl IsADirectoryError
         else Inr (s\<lparr>files := (files s)(p \<mapsto> net)\<rparr>))"

text \<open>Lines 111-115. \<^verbatim>\<open>if base_dir:\<close> is false for None and for the empty string.\<close>

definition resolve_output :: "string \<Rightarrow> string option \<Rightarrow> fs \<Rightarrow> (py_error + string) \<times> fs" where
  "resolve_output output_html base_dir s =
     (case base_dir of
        None \<Rightarrow> (Inr output_html, s)
      | Some b \<Rightarrow>
          if b \<noteq> [] then
            (case makedirs b s of
               Inl e \<Rightarrow> (Inl e, s)
             | Inr s1 \<Rightarrow> (Inr (os_path_join b output_html), s1))
          else (Inr output_html, s))"

text \<open>
  The whole function: what it returns or raises, and the file system it leaves. A
  directory created at line 112 stays when line 119 raises.
\<close>

definition plot_trader_bubblemap ::
  "row list \<Rightarrow> string \<Rightarrow> string option \<Rightarrow> fs \<Rightarrow> (py_error + string) \<times> fs" where
  "plot_trader_bubblemap df output_html base_dir s =
     (let rows = dropna df
      in case total_volume rows of
           Inl e \<Rightarrow> (Inl e, s)
         | Inr tv \<Rightarrow>
             (let G = build_graph rows;
                  net = build_network tv G
              in case resolve_output output_html base_dir s of
                   (Inl e, s1) \<Rightarrow> (Inl e, s1)
                 | (Inr output_path, s1) \<Rightarrow>
                     (case net_show net output_path s1 of
                        Inl e \<Rightarrow> (Inl e, s1)
                      | Inr s2 \<Rightarrow> (Inr output_path, s2))))"

text \<open>The call with the defaults of the signature.\<close>

definition default_output_html :: string where
  "default_output_html = ''bubblemap.html''"

definition plot_trader_bubblemap_default :: "row list \<Rightarrow> fs \<Rightarrow> (py_error + string) \<times> fs" where
  "plot_trader_bubblemap_default df s = plot_trader_bubblemap df default_output_html None s"

section \<open>queries.py, lines 26-30: the chain check\<close>

definition valid_chains :: "string list" where
  "valid_chains = [''ethereum'', ''base'', ''arbitrum'', ''optimism'', ''avalanche'', ''bsc'', ''polygon'']"

text \<open>
  The query text is an f-string over the lowercased chain and the other arguments; it
  is taken as the parameter \<open>evm_query\<close>.
\<close>

definition get_evm_traders_and_connections ::
  "(string \<Rightarrow> 'a \<Rightarrow> string) \<Rightarrow> string \<Rightarrow> 'a \<Rightarrow> py_error + string" where
  "get_evm_traders_and_connections evm_query chain args =
     (let chain' = py_lower chain
      in if chain' \<notin> set valid_chains then Inl ValueError else Inr (evm_query chain' args))"

section \<open>Notions used to state the properties\<close>

text \<open>The number in a numeric cell.\<close>

fun cell_value :: "cell \<Rightarrow> real" where
  "cell_value (Num x) = x"

text \<open>
  The sum of \<^verbatim>\<open>total_usd_traded\<close> over the rows where \<open>A\<close> stands in the column
  \<open>role\<close>.
\<close>

definition volume_as :: "(retained \<Rightarrow> string) \<Rightarrow> string \<Rightarrow> retained list \<Rightarrow> real" where
  "volume_as role A rows = sum_list (map (\<lambda>r. cell_value (usd r)) (filter (\<lambda>r. role r = A) rows))"

text \<open>A row carries the unordered pair of \<open>x\<close> and \<open>y\<close>; an edge joins \<open>x\<close> and \<open>y\<close>.\<close>

definition same_pair :: "string \<Rightarrow> string \<Rightarrow> retained \<Rightarrow> bool" where
  "same_pair x y r = ((from_addr r = x \<and> to_addr r = y) \<or> (from_addr r = y \<and> to_addr r = x))"

definition connects :: "string \<Rightarrow> string \<Rightarrow> string \<times> string \<times> pyfloat \<Rightarrow> bool" where
  "connects x y e = ((fst e = x \<and> fst (snd e) = y) \<or> (fst e = y \<and> fst (snd e) = x))"

text \<open>The conditions under which the renderer writes the file \<open>name\<close>.\<close>

definition renderer_accepts :: "fs \<Rightarrow> string \<Rightarrow> bool" where
  "renderer_accepts s name =
     (check_html name \<and> (\<forall>a \<in> set (ancestors (path_of name)). \<not> is_file s a) \<and>
      is_dir s (parent (path_of name)) \<and> \<not> is_dir s (path_of name))"

text \<open>Rows as the queries produce them, a file system with nothing in it, and the example of the specification.\<close>

definition edge_row :: "string \<Rightarrow> string \<Rightarrow> cell \<Rightarrow> row" where
  "edge_row a b c = \<lparr>type_col = ''edge'', address = Some a, target_address = Some b, total_usd_traded = c\<rparr>"

definition node_row :: "string \<Rightarrow> cell \<Rightarrow> row" where
  "node_row a c = \<lparr>type_col = ''node'', address = Some a, target_address = None, total_usd_traded = c\<rparr>"

definition empty_fs :: fs where
  "empty_fs = \<lparr>dirs = {}, files = Map.empty\<rparr>"



section \<open>Evaluation of concrete inputs\<close>

lemmas float_eval = py_float_def parse_sign_def py_strip_def is_space_def py_lower_def ascii_lower_def
  parse_number_def parse_exponent_def is_digit_def digit_val_def digits_nat_def parse_cell_def edge_weight_def

lemmas graph_eval = build_graph_def ravel_def pd_unique_def add_row_def add_edge_def add_node_def
  empty_graph_def edges_def Let_def

lemmas row_eval = edge_row_def node_row_def

lemmas encode_eval = build_network_def visual_attributes_def node_volumes_def get0_def median_def
  high_color_def low_color_def label_of_def

lemmas path_eval = path_of_def check_html_def is_dir_def is_file_def parent_def ancestors_def
  os_path_join_def




section \<open>The volume per address\<close>

lemma group_sum_numeric:
  "\<forall>p \<in> set kvs. \<exists>x. snd p = Num x \<Longrightarrow>
   group_sum kvs m = Inr (\<lambda>k. if k \<in> fst ` set kvs
        then Some ((case m k of None \<Rightarrow> 0 | Some s \<Rightarrow> s)
                   + sum_list (map (\<lambda>p. cell_value (snd p)) (filter (\<lambda>p. fst p = k) kvs)))
        else m k)"
proof (induction kvs arbitrary: m)
  case Nil
  then show ?case by simp
next
  case (Cons p kvs)
  obtain k c where p: "p = (k, c)" by (cases p)
  from Cons.prems p obtain x where c: "c = Num x" by auto
  have rest: "\<forall>p \<in> set kvs. \<exists>x. snd p = Num x" using Cons.prems by simp
  have empty: "filter (\<lambda>p. fst p = j) kvs = []" if "j \<notin> fst ` set kvs" for j
    using that by (auto simp: filter_empty_conv)
  show ?case
    unfolding p c
    by (auto simp: Cons.IH [OF rest] fun_eq_iff empty)
qed

lemma group_sum_error:
  "group_sum kvs m = Inl e \<Longrightarrow> e = TypeError"
  by (induction kvs m rule: group_sum.induct) auto

lemma total_volume_numeric:
  assumes "\<forall>r \<in> set rows. \<exists>x. usd r = Num x"
  shows "total_volume rows = Inr (\<lambda>k.
           if k \<in> from_addr ` set rows \<or> k \<in> to_addr ` set rows
           then Some (volume_as from_addr k rows + volume_as to_addr k rows) else None)"
proof -
  have f: "\<forall>p \<in> set (map (\<lambda>r. (from_addr r, usd r)) rows). \<exists>x. snd p = Num x"
    using assms by auto
  have t: "\<forall>p \<in> set (map (\<lambda>r. (to_addr r, usd r)) rows). \<exists>x. snd p = Num x"
    using assms by auto
  have sf: "sum_list (map (\<lambda>p. cell_value (snd p)) (filter (\<lambda>p. fst p = k) (map (\<lambda>r. (from_addr r, usd r)) rows)))
            = volume_as from_addr k rows" for k
    by (simp add: volume_as_def filter_map comp_def)
  have st: "sum_list (map (\<lambda>p. cell_value (snd p)) (filter (\<lambda>p. fst p = k) (map (\<lambda>r. (to_addr r, usd r)) rows)))
            = volume_as to_addr k rows" for k
    by (simp add: volume_as_def filter_map comp_def)
  have ef: "volume_as from_addr k rows = 0" if "k \<notin> from_addr ` set rows" for k
  proof -
    have "filter (\<lambda>r. from_addr r = k) rows = []" using that by (auto simp: filter_empty_conv)
    then show ?thesis by (simp add: volume_as_def)
  qed
  have et: "volume_as to_addr k rows = 0" if "k \<notin> to_addr ` set rows" for k
  proof -
    have "filter (\<lambda>r. to_addr r = k) rows = []" using that by (auto simp: filter_empty_conv)
    then show ?thesis by (simp add: volume_as_def)
  qed
  have kf: "fst ` set (map (\<lambda>r. (from_addr r, usd r)) rows) = from_addr ` set rows"
    by (simp add: image_image)
  have kt: "fst ` set (map (\<lambda>r. (to_addr r, usd r)) rows) = to_addr ` set rows"
    by (simp add: image_image)
  show ?thesis
    unfolding total_volume_def group_sum_numeric [OF f] group_sum_numeric [OF t] kf kt sf st
    by (auto simp: series_add_def fun_eq_iff ef et)
qed

lemma set_ravel: "set (ravel rows) = from_addr ` set rows \<union> to_addr ` set rows"
  by (induction rows) (auto simp: ravel_def)

text \<open>
  C1. When the column \<^verbatim>\<open>total_usd_traded\<close> of the retained rows is numeric, the volume
  computed for an address \<open>A\<close> that stands in a retained row as \<^verbatim>\<open>address\<close> or as
  \<^verbatim>\<open>target_address\<close> is the sum of \<^verbatim>\<open>total_usd_traded\<close> over the retained rows with
  \<open>A\<close> as \<^verbatim>\<open>address\<close> plus the sum over the retained rows with \<open>A\<close> as
  \<^verbatim>\<open>target_address\<close>.
\<close>

theorem volume_sums_both_roles:
  assumes "\<forall>r \<in> set (dropna df). \<exists>x. usd r = Num x"
    and "A \<in> from_addr ` set (dropna df) \<union> to_addr ` set (dropna df)"
  shows "\<exists>tv. total_volume (dropna df) = Inr tv \<and>
           tv A = Some (volume_as from_addr A (dropna df) + volume_as to_addr A (dropna df))"
  using assms(2) by (auto simp: total_volume_numeric [OF assms(1)])

theorem volume_sums_both_roles_witness:
  "\<exists>tv. total_volume (dropna [edge_row ''0xA'' ''0xB'' (Num 100), edge_row ''0xB'' ''0xC'' (Num 300)]) = Inr tv
     \<and> tv ''0xB'' = Some 400"
  using volume_sums_both_roles [of "[edge_row ''0xA'' ''0xB'' (Num 100), edge_row ''0xB'' ''0xC'' (Num 300)]" "''0xB''"]
  by (simp add: row_eval volume_as_def)

section \<open>Sizes and colours\<close>














section \<open>The graph\<close>

subsection \<open>Nodes\<close>

lemma adj_add_node: "adj (add_node n G) = adj G"
  by (simp add: add_node_def)

lemma node_list_add_node:
  "node_list (add_node n G) = (if n \<in> set (node_list G) then node_list G else node_list G @ [n])"
  by (simp add: add_node_def)

lemma adj_fold_add_node: "adj (fold add_node xs G) = adj G"
  by (induction xs arbitrary: G) (simp_all add: adj_add_node)

lemma node_list_fold_add_node:
  "node_list (fold add_node xs G) = fold (\<lambda>x acc. if x \<in> set acc then acc else acc @ [x]) xs (node_list G)"
  by (induction xs arbitrary: G) (simp_all add: node_list_add_node)

lemma unique_fold_set:
  "set (fold (\<lambda>x acc. if x \<in> set acc then acc else acc @ [x]) xs acc) = set acc \<union> set xs"
  by (induction xs arbitrary: acc) auto

lemma unique_fold_distinct:
  "distinct acc \<Longrightarrow> distinct (fold (\<lambda>x acc. if x \<in> set acc then acc else acc @ [x]) xs acc)"
  by (induction xs arbitrary: acc) auto

lemma unique_fold_id:
  "distinct xs \<Longrightarrow> set xs \<inter> set acc = {} \<Longrightarrow>
   fold (\<lambda>x acc. if x \<in> set acc then acc else acc @ [x]) xs acc = acc @ xs"
  by (induction xs arbitrary: acc) auto

lemma set_pd_unique: "set (pd_unique xs) = set xs"
  by (simp add: pd_unique_def unique_fold_set)

lemma distinct_pd_unique: "distinct (pd_unique xs)"
  by (simp add: pd_unique_def unique_fold_distinct)

lemma node_list_add_edge:
  "u \<in> set (node_list G) \<Longrightarrow> v \<in> set (node_list G) \<Longrightarrow> node_list (add_edge u v w G) = node_list G"
  by (simp add: add_edge_def Let_def add_node_def)

lemma node_list_fold_add_row:
  "\<forall>r \<in> set rows. from_addr r \<in> set (node_list G) \<and> to_addr r \<in> set (node_list G) \<Longrightarrow>
   node_list (fold add_row rows G) = node_list G"
  by (induction rows arbitrary: G) (simp_all add: add_row_def node_list_add_edge)

lemma node_list_build_graph: "node_list (build_graph rows) = pd_unique (ravel rows)"
proof -
  let ?G0 = "fold add_node (pd_unique (ravel rows)) empty_graph"
  have n0: "node_list ?G0 = pd_unique (ravel rows)"
    by (simp add: node_list_fold_add_node empty_graph_def unique_fold_id distinct_pd_unique)
  have "\<forall>r \<in> set rows. from_addr r \<in> set (node_list ?G0) \<and> to_addr r \<in> set (node_list ?G0)"
    unfolding n0 set_pd_unique set_ravel by auto
  then show ?thesis
    unfolding build_graph_def using n0 by (simp add: node_list_fold_add_row)
qed

lemma set_node_list_build_graph:
  "set (node_list (build_graph rows)) = from_addr ` set rows \<union> to_addr ` set rows"
  by (simp add: node_list_build_graph set_pd_unique set_ravel)

subsection \<open>Weights\<close>

lemma map_of_dict_set: "map_of (dict_set k v al) = (map_of al)(k \<mapsto> v)"
  by (induction al) (auto simp: fun_eq_iff)

lemma keys_dict_set: "fst ` set (dict_set k v al) = insert k (fst ` set al)"
  by (induction al) auto

lemma distinct_dict_set: "distinct (map fst al) \<Longrightarrow> distinct (map fst (dict_set k v al))"
  by (induction al) (auto simp: keys_dict_set)

lemma weight_add_edge:
  "map_of (adj (add_edge u v w G) x) y =
     (if (x = u \<and> y = v) \<or> (x = v \<and> y = u) then Some w else map_of (adj G x) y)"
  by (simp add: add_edge_def Let_def adj_add_node map_of_dict_set)

lemma distinct_add_edge:
  "\<forall>n. distinct (map fst (adj G n)) \<Longrightarrow> distinct (map fst (adj (add_edge u v w G) n))"
  by (simp add: add_edge_def Let_def adj_add_node distinct_dict_set)

lemma distinct_fold_add_row:
  "\<forall>n. distinct (map fst (adj G n)) \<Longrightarrow> \<forall>n. distinct (map fst (adj (fold add_row rows G) n))"
  by (induction rows arbitrary: G) (simp_all add: add_row_def distinct_add_edge)

lemma weight_fold_add_row:
  "map_of (adj (fold add_row rows G) x) y =
     (if filter (same_pair x y) rows = [] then map_of (adj G x) y
      else Some (edge_weight (usd (last (filter (same_pair x y) rows)))))"
proof (induction rows rule: rev_induct)
  case Nil
  then show ?case by simp
next
  case (snoc r rows)
  have c: "((x = from_addr r \<and> y = to_addr r) \<or> (x = to_addr r \<and> y = from_addr r)) = same_pair x y r"
    by (auto simp: same_pair_def)
  have step: "map_of (adj (fold add_row (rows @ [r]) G) x) y =
      (if same_pair x y r then Some (edge_weight (usd r)) else map_of (adj (fold add_row rows G) x) y)"
    by (simp add: add_row_def weight_add_edge c)
  show ?case
  proof (cases "same_pair x y r")
    case True
    then show ?thesis unfolding step by simp
  next
    case False
    then show ?thesis unfolding step snoc.IH by simp
  qed
qed

lemma distinct_build_graph: "distinct (map fst (adj (build_graph rows) n))"
proof -
  have "\<forall>n. distinct (map fst (adj (fold add_node (pd_unique (ravel rows)) empty_graph) n))"
    by (simp add: adj_fold_add_node empty_graph_def)
  then show ?thesis unfolding build_graph_def using distinct_fold_add_row by blast
qed

lemma weight_build_graph:
  "map_of (adj (build_graph rows) x) y =
     (if filter (same_pair x y) rows = [] then None
      else Some (edge_weight (usd (last (filter (same_pair x y) rows)))))"
  unfolding build_graph_def weight_fold_add_row
  by (simp add: adj_fold_add_node empty_graph_def)

lemma same_pair_commute: "same_pair x y = same_pair y x"
  by (auto simp: same_pair_def fun_eq_iff)

lemma keys_build_graph:
  "y \<in> fst ` set (adj (build_graph rows) x) \<longleftrightarrow> (\<exists>r \<in> set rows. same_pair x y r)"
proof -
  have "y \<in> fst ` set (adj (build_graph rows) x) \<longleftrightarrow> map_of (adj (build_graph rows) x) y \<noteq> None"
    by (metis map_of_eq_None_iff)
  also have "\<dots> \<longleftrightarrow> filter (same_pair x y) rows \<noteq> []"
    by (simp add: weight_build_graph)
  also have "\<dots> \<longleftrightarrow> (\<exists>r \<in> set rows. same_pair x y r)"
    by (auto simp: filter_empty_conv)
  finally show ?thesis .
qed

subsection \<open>Edges\<close>

lemma count_key:
  "distinct (map fst al) \<Longrightarrow>
   length (filter (\<lambda>p. fst p = k) al) = (if k \<in> fst ` set al then 1 else 0)"
  by (induction al) (auto simp: image_iff)

lemma count_key_outside:
  assumes "distinct (map fst al)"
  shows "length (filter (\<lambda>p. fst p \<notin> S \<and> fst p = k) al) = (if k \<notin> S \<and> k \<in> fst ` set al then 1 else 0)"
proof (cases "k \<in> S")
  case True
  then have "filter (\<lambda>p. fst p \<notin> S \<and> fst p = k) al = []"
    by (auto simp: filter_empty_conv)
  then show ?thesis using True by simp
next
  case False
  then have "filter (\<lambda>p. fst p \<notin> S \<and> fst p = k) al = filter (\<lambda>p. fst p = k) al"
    by (intro filter_cong) auto
  then show ?thesis using False count_key [OF assms, of k] by simp
qed

lemma edges_from_member:
  "e \<in> set (edges_from a seen ns) \<Longrightarrow> fst e \<in> set ns \<and> snd e \<in> set (a (fst e))"
  by (induction ns arbitrary: seen) auto

lemma first_part_count:
  assumes "distinct (map fst al)"
  shows "length (filter (connects x y) (map (\<lambda>(nbr, w). (n, nbr, w)) (filter (\<lambda>(nbr, w). nbr \<notin> S) al)))
         = (if n = x \<and> y \<notin> S \<and> y \<in> fst ` set al then 1
            else if n = y \<and> x \<notin> S \<and> x \<in> fst ` set al then 1 else 0)"
proof -
  let ?Q = "\<lambda>p. fst p \<notin> S \<and> ((n = x \<and> fst p = y) \<or> (n = y \<and> fst p = x))"
  have pred: "(\<lambda>p. (case p of (nbr, w) \<Rightarrow> nbr \<notin> S) \<and> (connects x y \<circ> (\<lambda>(nbr, w). (n, nbr, w))) p) = ?Q"
    by (rule ext) (simp add: connects_def split_def)
  have eq: "length (filter (connects x y) (map (\<lambda>(nbr, w). (n, nbr, w)) (filter (\<lambda>(nbr, w). nbr \<notin> S) al)))
            = length (filter ?Q al)"
    unfolding filter_map length_map filter_filter pred ..
  consider "n = x" "n = y" | "n = x" "n \<noteq> y" | "n \<noteq> x" "n = y" | "n \<noteq> x" "n \<noteq> y" by blast
  then show ?thesis
  proof cases
    case 1
    then have "filter ?Q al = filter (\<lambda>p. fst p \<notin> S \<and> fst p = y) al"
      by (intro filter_cong) auto
    then show ?thesis unfolding eq using 1 count_key_outside [OF assms, of S y] by simp
  next
    case 2
    then have "filter ?Q al = filter (\<lambda>p. fst p \<notin> S \<and> fst p = y) al"
      by (intro filter_cong) auto
    then show ?thesis unfolding eq using 2 count_key_outside [OF assms, of S y] by simp
  next
    case 3
    then have "filter ?Q al = filter (\<lambda>p. fst p \<notin> S \<and> fst p = x) al"
      by (intro filter_cong) auto
    then show ?thesis unfolding eq using 3 count_key_outside [OF assms, of S x] by simp
  next
    case 4
    then have "filter ?Q al = []" by (auto simp: filter_empty_conv)
    then show ?thesis unfolding eq using 4 by simp
  qed
qed

lemma edges_from_count:
  assumes dk: "\<forall>n. distinct (map fst (a n))"
    and sym: "\<forall>u v. (v \<in> fst ` set (a u)) = (u \<in> fst ` set (a v))"
  shows "distinct ns \<Longrightarrow> set ns \<inter> set seen = {} \<Longrightarrow>
         length (filter (connects x y) (edges_from a seen ns))
         = (if y \<in> fst ` set (a x) \<and> ((x \<in> set ns \<and> y \<notin> set seen) \<or> (y \<in> set ns \<and> x \<notin> set seen))
            then 1 else 0)"
proof (induction ns arbitrary: seen)
  case Nil
  then show ?case by simp
next
  case (Cons n ns)
  have d: "distinct ns" and nn: "n \<notin> set ns" and ns: "n \<notin> set seen" and dis: "set ns \<inter> set (n # seen) = {}"
    using Cons.prems by auto
  have dn: "distinct (map fst (a n))" using dk by simp
  note IH = Cons.IH [OF d dis]
  have symxy: "(y \<in> fst ` set (a x)) = (x \<in> fst ` set (a y))" using sym by simp
  have xs: "x \<notin> set seen" if "x \<in> set ns" using that dis by auto
  have ys: "y \<notin> set seen" if "y \<in> set ns" using that dis by auto
  have split: "length (filter (connects x y) (edges_from a seen (n # ns)))
      = (if n = x \<and> y \<notin> set seen \<and> y \<in> fst ` set (a n) then 1
         else if n = y \<and> x \<notin> set seen \<and> x \<in> fst ` set (a n) then 1 else 0)
        + (if y \<in> fst ` set (a x) \<and> ((x \<in> set ns \<and> y \<notin> set (n # seen)) \<or> (y \<in> set ns \<and> x \<notin> set (n # seen)))
            then 1 else 0)"
    unfolding edges_from.simps filter_append length_append first_part_count [OF dn] IH ..
  show ?case
  proof (cases "y \<in> fst ` set (a x)")
    case False
    then have "x \<notin> fst ` set (a y)" using symxy by simp
    then show ?thesis unfolding split using False by auto
  next
    case True
    then have t2: "x \<in> fst ` set (a y)" using symxy by simp
    consider "n = x" "n = y" | "n = x" "n \<noteq> y" | "n \<noteq> x" "n = y" | "n \<noteq> x" "n \<noteq> y" by blast
    then show ?thesis
    proof cases
      case 1
      then show ?thesis unfolding split using True ns nn by simp
    next
      case 2
      then show ?thesis unfolding split using True ns nn ys by auto
    next
      case 3
      then show ?thesis unfolding split using True t2 ns nn xs by auto
    next
      case 4
      then show ?thesis unfolding split using True xs ys by auto
    qed
  qed
qed

lemma edges_count_build_graph:
  "length (filter (connects x y) (edges (build_graph rows)))
   = (if \<exists>r \<in> set rows. same_pair x y r then 1 else 0)"
proof -
  let ?G = "build_graph rows"
  have dk: "\<forall>n. distinct (map fst (adj ?G n))" by (simp add: distinct_build_graph)
  have sym: "\<forall>u v. (v \<in> fst ` set (adj ?G u)) = (u \<in> fst ` set (adj ?G v))"
    unfolding keys_build_graph by (auto simp: same_pair_def)
  have dn: "distinct (node_list ?G)" by (simp add: node_list_build_graph distinct_pd_unique)
  have c: "length (filter (connects x y) (edges ?G))
     = (if y \<in> fst ` set (adj ?G x) \<and> (x \<in> set (node_list ?G) \<or> y \<in> set (node_list ?G)) then 1 else 0)"
    unfolding edges_def using edges_from_count [OF dk sym dn, of "[]" x y] by simp
  have "x \<in> set (node_list ?G)" if "\<exists>r \<in> set rows. same_pair x y r"
    using that unfolding set_node_list_build_graph same_pair_def by auto
  then show ?thesis unfolding c keys_build_graph by auto
qed

lemma edge_weight_build_graph:
  assumes e: "e \<in> set (edges (build_graph rows))" and c: "connects x y e"
  shows "snd (snd e) = edge_weight (usd (last (filter (same_pair x y) rows)))"
proof -
  obtain u v w where uvw: "e = (u, v, w)" by (cases e)
  have "(v, w) \<in> set (adj (build_graph rows) u)"
    using edges_from_member [of e "adj (build_graph rows)" "[]" "node_list (build_graph rows)"] e
    by (simp add: edges_def uvw)
  then have m: "map_of (adj (build_graph rows) u) v = Some w"
    using distinct_build_graph [of rows u] by simp
  have "same_pair u v = same_pair x y"
    using c unfolding connects_def uvw by (auto simp: same_pair_def fun_eq_iff)
  then show ?thesis
    using m unfolding weight_build_graph uvw by (auto split: if_splits)
qed

text \<open>
  C5. For every retained row, the graph has exactly one edge between its \<^verbatim>\<open>address\<close>
  and its \<^verbatim>\<open>target_address\<close>, whatever the number of retained rows that carry this
  unordered pair, and the weight of the edge is the parsed weight of the last of these
  rows: a later row overwrites, nothing is accumulated.
\<close>

theorem duplicate_pair_last_wins:
  assumes "r \<in> set (dropna df)"
  shows "length (filter (connects (from_addr r) (to_addr r)) (edges (build_graph (dropna df)))) = 1 \<and>
         (\<forall>e \<in> set (edges (build_graph (dropna df))).
            connects (from_addr r) (to_addr r) e \<longrightarrow>
            snd (snd e) = edge_weight (usd (last (filter (same_pair (from_addr r) (to_addr r)) (dropna df)))))"
proof -
  have "same_pair (from_addr r) (to_addr r) r" by (simp add: same_pair_def)
  then have "\<exists>q \<in> set (dropna df). same_pair (from_addr r) (to_addr r) q" using assms by blast
  then have "length (filter (connects (from_addr r) (to_addr r)) (edges (build_graph (dropna df)))) = 1"
    by (simp add: edges_count_build_graph)
  then show ?thesis using edge_weight_build_graph by blast
qed

theorem duplicate_pair_last_wins_witness:
  "edges (build_graph (dropna [edge_row ''0xA'' ''0xB'' (Num 100), edge_row ''0xB'' ''0xA'' (Num 7)]))
     = [(''0xA'', ''0xB'', Fin 7)]
   \<and> length (filter (connects ''0xA'' ''0xB'')
        (edges (build_graph (dropna [edge_row ''0xA'' ''0xB'' (Num 100), edge_row ''0xB'' ''0xA'' (Num 7)])))) = 1"
  using duplicate_pair_last_wins [of "\<lparr>from_addr = ''0xA'', to_addr = ''0xB'', usd = Num 100\<rparr>"
      "[edge_row ''0xA'' ''0xB'' (Num 100), edge_row ''0xB'' ''0xA'' (Num 7)]"]
  by (simp add: row_eval graph_eval float_eval)

text \<open>
  C7. A retained row whose \<^verbatim>\<open>address\<close> equals its \<^verbatim>\<open>target_address\<close> gives a
  self-loop on that address in the graph; nothing filters it.
\<close>

theorem self_loop_preserved:
  assumes "r \<in> set (dropna df)" and "from_addr r = to_addr r"
  shows "\<exists>w. (from_addr r, from_addr r, w) \<in> set (edges (build_graph (dropna df))) \<and>
             length (filter (connects (from_addr r) (from_addr r)) (edges (build_graph (dropna df)))) = 1"
proof -
  have "same_pair (from_addr r) (from_addr r) r" using assms(2) by (simp add: same_pair_def)
  then have "\<exists>q \<in> set (dropna df). same_pair (from_addr r) (from_addr r) q" using assms by blast
  then have one: "length (filter (connects (from_addr r) (from_addr r)) (edges (build_graph (dropna df)))) = 1"
    by (simp add: edges_count_build_graph)
  then have "filter (connects (from_addr r) (from_addr r)) (edges (build_graph (dropna df))) \<noteq> []"
    by auto
  then obtain e where e: "e \<in> set (edges (build_graph (dropna df)))" "connects (from_addr r) (from_addr r) e"
    by (auto simp: filter_empty_conv)
  obtain u v w where "e = (u, v, w)" by (cases e)
  then have "e = (from_addr r, from_addr r, w)" using e(2) by (simp add: connects_def)
  then show ?thesis using e(1) one by blast
qed

theorem self_loop_preserved_witness:
  "edges (build_graph (dropna [edge_row ''0xA'' ''0xA'' (Num 5), edge_row ''0xA'' ''0xB'' (Num 2)]))
     = [(''0xA'', ''0xA'', Fin 5), (''0xA'', ''0xB'', Fin 2)]"
  using self_loop_preserved [of "\<lparr>from_addr = ''0xA'', to_addr = ''0xA'', usd = Num 5\<rparr>"
      "[edge_row ''0xA'' ''0xA'' (Num 5), edge_row ''0xA'' ''0xB'' (Num 2)]"]
  by (simp add: row_eval graph_eval float_eval)

section \<open>Nodes and volumes\<close>

lemma group_sum_Inr_numeric:
  "group_sum kvs m = Inr m' \<Longrightarrow> \<forall>p \<in> set kvs. \<exists>x. snd p = Num x"
  by (induction kvs m rule: group_sum.induct) auto

lemma total_volume_Inr_numeric:
  assumes "total_volume rows = Inr tv"
  shows "\<forall>r \<in> set rows. \<exists>x. usd r = Num x"
proof -
  obtain vf where "group_sum (map (\<lambda>r. (from_addr r, usd r)) rows) Map.empty = Inr vf"
    using assms unfolding total_volume_def by (auto split: sum.splits)
  from group_sum_Inr_numeric [OF this] show ?thesis by auto
qed

lemma dom_total_volume:
  assumes "total_volume rows = Inr tv"
  shows "dom tv = from_addr ` set rows \<union> to_addr ` set rows"
proof -
  have "tv = (\<lambda>k. if k \<in> from_addr ` set rows \<or> k \<in> to_addr ` set rows
           then Some (volume_as from_addr k rows + volume_as to_addr k rows) else None)"
    using total_volume_numeric [OF total_volume_Inr_numeric [OF assms]] assms by simp
  then show ?thesis by (auto simp: dom_def)
qed

text \<open>
  C9. The keys of the volume mapping are the nodes of the graph. So every node has an
  entry, \<^verbatim>\<open>total_volume.get(node, 0)\<close> never falls back to 0, and the list
  \<^verbatim>\<open>volumes\<close> is empty, which selects the branch of the default size and colour, only
  when the graph has no node; that branch then has no node to give them to.
\<close>

theorem every_node_has_volume:
  assumes "total_volume (dropna df) = Inr tv"
  shows "dom tv = set (node_list (build_graph (dropna df))) \<and>
         (\<forall>node \<in> set (node_list (build_graph (dropna df))). \<exists>v. tv node = Some v \<and> get0 tv node = v) \<and>
         (node_volumes tv (node_list (build_graph (dropna df))) = [] \<longleftrightarrow> node_list (build_graph (dropna df)) = []) \<and>
         (node_list (build_graph (dropna df)) = [] \<longrightarrow>
            visual_attributes tv (node_list (build_graph (dropna df))) = ([], []))"
proof -
  have d: "dom tv = set (node_list (build_graph (dropna df)))"
    by (simp add: dom_total_volume [OF assms] set_node_list_build_graph)
  have "\<forall>node \<in> set (node_list (build_graph (dropna df))). \<exists>v. tv node = Some v \<and> get0 tv node = v"
  proof
    fix node assume "node \<in> set (node_list (build_graph (dropna df)))"
    then have "node \<in> dom tv" using d by simp
    then obtain v where "tv node = Some v" by auto
    then show "\<exists>v. tv node = Some v \<and> get0 tv node = v" by (simp add: get0_def)
  qed
  then show ?thesis using d by (simp add: node_volumes_def visual_attributes_def)
qed

theorem every_node_has_volume_witness:
  "node_list (build_graph (dropna [edge_row ''0xA'' ''0xB'' (Num 100), node_row ''0xD'' (Num 9)])) = [''0xA'', ''0xB'']
   \<and> (\<exists>tv. total_volume (dropna [edge_row ''0xA'' ''0xB'' (Num 100), node_row ''0xD'' (Num 9)]) = Inr tv
        \<and> dom tv = {''0xA'', ''0xB''})"
  using every_node_has_volume [of "[edge_row ''0xA'' ''0xB'' (Num 100), node_row ''0xD'' (Num 9)]"]
  by (simp add: row_eval graph_eval total_volume_def)

section \<open>The renderer and the file system\<close>

lemma net_show_Inr_iff:
  "(\<exists>s2. net_show net name s = Inr s2) \<longleftrightarrow> renderer_accepts s name"
  by (auto simp: net_show_def renderer_accepts_def Let_def)

lemma net_show_accepts:
  "renderer_accepts s name \<Longrightarrow> net_show net name s = Inr (s\<lparr>files := (files s)(path_of name \<mapsto> net)\<rparr>)"
  by (auto simp: net_show_def renderer_accepts_def Let_def)

lemma net_show_Inr:
  "net_show net name s = Inr s2 \<Longrightarrow> s2 = s\<lparr>files := (files s)(path_of name \<mapsto> net)\<rparr>"
  by (auto simp: net_show_def Let_def split: if_splits)

lemma net_show_rejects:
  "\<not> renderer_accepts s name \<Longrightarrow> \<exists>e. net_show net name s = Inl e"
  by (auto simp: net_show_def renderer_accepts_def Let_def)

lemma makedirs_is_dir:
  "makedirs b s = Inr s1 \<Longrightarrow> is_dir s1 (path_of b) \<and> files s1 = files s \<and> dirs s \<subseteq> dirs s1"
  by (auto simp: makedirs_def Let_def is_dir_def split: if_splits)

lemma resolve_output_path:
  "fst (resolve_output output_html base_dir s) = Inr q \<Longrightarrow>
   q = (case base_dir of None \<Rightarrow> output_html | Some b \<Rightarrow> os_path_join b output_html)"
  by (auto simp: resolve_output_def os_path_join_def split: option.splits if_splits sum.splits)

lemma resolve_output_no_base:
  "base_dir = None \<or> base_dir = Some [] \<Longrightarrow> resolve_output output_html base_dir s = (Inr output_html, s)"
  by (auto simp: resolve_output_def)

lemma resolve_output_base:
  "b \<noteq> [] \<Longrightarrow> resolve_output output_html (Some b) s =
     (case makedirs b s of Inl e \<Rightarrow> (Inl e, s) | Inr s1 \<Rightarrow> (Inr (os_path_join b output_html), s1))"
  by (simp add: resolve_output_def)

lemma plot_numeric:
  assumes "\<forall>r \<in> set (dropna df). \<exists>x. usd r = Num x"
  shows "\<exists>tv. total_volume (dropna df) = Inr tv \<and>
    plot_trader_bubblemap df output_html base_dir s =
      (case resolve_output output_html base_dir s of
         (Inl e, s1) \<Rightarrow> (Inl e, s1)
       | (Inr output_path, s1) \<Rightarrow>
           (case net_show (build_network tv (build_graph (dropna df))) output_path s1 of
              Inl e \<Rightarrow> (Inl e, s1)
            | Inr s2 \<Rightarrow> (Inr output_path, s2)))"
  by (simp add: plot_trader_bubblemap_def Let_def total_volume_numeric [OF assms])

lemma render_outcome:
  assumes r: "resolve_output output_html base_dir s = (Inr p, s1)"
    and res: "res = (case resolve_output output_html base_dir s of
         (Inl e, s1) \<Rightarrow> (Inl e, s1)
       | (Inr output_path, s1) \<Rightarrow>
           (case net_show net output_path s1 of
              Inl e \<Rightarrow> (Inl e, s1)
            | Inr s2 \<Rightarrow> (Inr output_path, s2)))"
  shows "(fst res = Inr p \<longleftrightarrow> renderer_accepts s1 p) \<and>
         (renderer_accepts s1 p \<longrightarrow> res = (Inr p, s1\<lparr>files := (files s1)(path_of p \<mapsto> net)\<rparr>)) \<and>
         (\<not> renderer_accepts s1 p \<longrightarrow> (\<exists>e. res = (Inl e, s1))) \<and>
         (\<not> check_html p \<longrightarrow> res = (Inl AssertionError, s1)) \<and>
         (check_html p \<and> (\<forall>a \<in> set (ancestors (path_of p)). \<not> is_file s1 a) \<and> \<not> is_dir s1 (parent (path_of p))
            \<longrightarrow> res = (Inl FileNotFoundError, s1))"
proof (cases "renderer_accepts s1 p")
  case True
  then show ?thesis
    unfolding res r by (auto simp: net_show_accepts renderer_accepts_def)
next
  case False
  from net_show_rejects [OF False, of net] obtain e where e: "net_show net p s1 = Inl e" by blast
  have a: "\<not> check_html p \<longrightarrow> e = AssertionError"
    using e by (auto simp: net_show_def Let_def split: if_splits)
  have f: "check_html p \<and> (\<forall>a \<in> set (ancestors (path_of p)). \<not> is_file s1 a) \<and> \<not> is_dir s1 (parent (path_of p))
            \<longrightarrow> e = FileNotFoundError"
    using e by (auto simp: net_show_def Let_def split: if_splits)
  show ?thesis
    unfolding res r using False e a f by simp
qed

lemma accepts_default: "renderer_accepts s ''bubblemap.html'' \<longleftrightarrow> \<not> is_dir s (path_of ''bubblemap.html'')"
  by (simp add: renderer_accepts_def path_eval)

section \<open>Rows without a target address\<close>

lemma dropna_no_target:
  "\<forall>r \<in> set df. target_address r = None \<Longrightarrow> dropna df = []"
  by (induction df) (auto split: option.splits)

lemma build_graph_Nil: "build_graph [] = empty_graph"
  by (simp add: build_graph_def ravel_def pd_unique_def)

text \<open>
  C4 as stated asks for one node per node row. A node row has no \<^verbatim>\<open>target_address\<close>,
  so \<^verbatim>\<open>dropna\<close> removes it: the graph built from one node row has no node at all.
\<close>

theorem node_rows_only_counterexample:
  "type_col (node_row ''0xA'' (Num 100)) = ''node'' \<and>
   address (node_row ''0xA'' (Num 100)) = Some ''0xA'' \<and>
   target_address (node_row ''0xA'' (Num 100)) = None \<and>
   node_list (build_graph (dropna [node_row ''0xA'' (Num 100)])) = [] \<and>
   node_list (build_graph (dropna [node_row ''0xA'' (Num 100)])) \<noteq> [''0xA'']"
  by (simp add: node_row_def build_graph_Nil empty_graph_def)

text \<open>
  C4, as the code has it. When no row has a \<^verbatim>\<open>target_address\<close> (node rows only, no
  edge row), every row is dropped: the graph has no node and no edge. The function then
  does what rendering the empty network does: at an output path that the renderer
  accepts it returns the path and writes the empty network there, as it does for the
  default name when that is not a directory.
\<close>

theorem no_edge_rows_empty_graph:
  assumes "\<forall>r \<in> set df. target_address r = None"
  shows "node_list (build_graph (dropna df)) = [] \<and> edges (build_graph (dropna df)) = [] \<and>
     plot_trader_bubblemap df output_html base_dir s =
       (case resolve_output output_html base_dir s of
          (Inl e, s1) \<Rightarrow> (Inl e, s1)
        | (Inr p, s1) \<Rightarrow>
            (case net_show \<lparr>net_nodes = [], net_edges = []\<rparr> p s1 of
               Inl e \<Rightarrow> (Inl e, s1)
             | Inr s2 \<Rightarrow> (Inr p, s2))) \<and>
     (\<forall>p s1. resolve_output output_html base_dir s = (Inr p, s1) \<and> renderer_accepts s1 p \<longrightarrow>
        plot_trader_bubblemap df output_html base_dir s =
          (Inr p, s1\<lparr>files := (files s1)(path_of p \<mapsto> \<lparr>net_nodes = [], net_edges = []\<rparr>)\<rparr>)) \<and>
     (\<not> is_dir s (path_of ''bubblemap.html'') \<longrightarrow>
        plot_trader_bubblemap_default df s =
          (Inr ''bubblemap.html'', s\<lparr>files := (files s)(path_of ''bubblemap.html'' \<mapsto> \<lparr>net_nodes = [], net_edges = []\<rparr>)\<rparr>))"
proof -
  have d: "dropna df = []" using assms by (rule dropna_no_target)
  have n: "node_list (build_graph (dropna df)) = []" "edges (build_graph (dropna df)) = []"
    by (simp_all add: d build_graph_Nil empty_graph_def edges_def)
  have net: "build_network (series_add Map.empty Map.empty) empty_graph = \<lparr>net_nodes = [], net_edges = []\<rparr>"
    by (simp add: build_network_def visual_attributes_def node_volumes_def empty_graph_def edges_def)
  have eq: "plot_trader_bubblemap df output_html base_dir s =
       (case resolve_output output_html base_dir s of
          (Inl e, s1) \<Rightarrow> (Inl e, s1)
        | (Inr p, s1) \<Rightarrow>
            (case net_show \<lparr>net_nodes = [], net_edges = []\<rparr> p s1 of
               Inl e \<Rightarrow> (Inl e, s1)
             | Inr s2 \<Rightarrow> (Inr p, s2)))" for output_html base_dir
    by (auto simp: plot_trader_bubblemap_def d build_graph_Nil total_volume_def net
        split: prod.splits sum.splits)
  have ok: "plot_trader_bubblemap df output_html base_dir s =
          (Inr p, s1\<lparr>files := (files s1)(path_of p \<mapsto> \<lparr>net_nodes = [], net_edges = []\<rparr>)\<rparr>)"
    if "resolve_output output_html base_dir s = (Inr p, s1) \<and> renderer_accepts s1 p" for p s1
    using that by (simp add: eq net_show_accepts)
  have dflt: "plot_trader_bubblemap_default df s =
          (Inr ''bubblemap.html'', s\<lparr>files := (files s)(path_of ''bubblemap.html'' \<mapsto> \<lparr>net_nodes = [], net_edges = []\<rparr>)\<rparr>)"
    if "\<not> is_dir s (path_of ''bubblemap.html'')"
    using that
    by (simp add: plot_trader_bubblemap_default_def default_output_html_def eq resolve_output_def
        net_show_accepts accepts_default)
  show ?thesis using n eq ok dflt by blast
qed

theorem no_edge_rows_empty_graph_witness:
  "plot_trader_bubblemap [node_row ''0xA'' (Num 100), node_row ''0xB'' (Num 5)] ''bubblemap.html'' None empty_fs
    = (Inr ''bubblemap.html'',
       \<lparr>dirs = {}, files = [(False, [''bubblemap.html'']) \<mapsto> \<lparr>net_nodes = [], net_edges = []\<rparr>]\<rparr>)"
proof -
  have h: "\<forall>r \<in> set [node_row ''0xA'' (Num 100), node_row ''0xB'' (Num 5)]. target_address r = None"
    by (simp add: node_row_def)
  have r: "resolve_output ''bubblemap.html'' None empty_fs = (Inr ''bubblemap.html'', empty_fs)"
    by (simp add: resolve_output_def)
  have a: "renderer_accepts empty_fs ''bubblemap.html''"
    by (simp add: accepts_default path_eval empty_fs_def)
  have p: "path_of ''bubblemap.html'' = (False, [''bubblemap.html''])" by (simp add: path_eval)
  from no_edge_rows_empty_graph [OF h, of "''bubblemap.html''" None empty_fs] r a
  have "plot_trader_bubblemap [node_row ''0xA'' (Num 100), node_row ''0xB'' (Num 5)] ''bubblemap.html'' None empty_fs
    = (Inr ''bubblemap.html'', empty_fs\<lparr>files := (files empty_fs)(path_of ''bubblemap.html'' \<mapsto> \<lparr>net_nodes = [], net_edges = []\<rparr>)\<rparr>)"
    by blast
  then show ?thesis by (simp add: p empty_fs_def)
qed

section \<open>The output path\<close>

text \<open>
  C8. For a numeric column, whenever the function returns, it returns the resolved path,
  \<^verbatim>\<open>output_html\<close> when \<^verbatim>\<open>base_dir\<close> is None (or empty) and
  \<^verbatim>\<open>os.path.join(base_dir, output_html)\<close> otherwise, the network is in the file at that
  path, and a non-empty \<^verbatim>\<open>base_dir\<close> exists as a directory. It returns exactly when the
  directory can be created and the renderer accepts the path: a name that does not end
  in \<^verbatim>\<open>html\<close> raises AssertionError and a missing directory of the file
  FileNotFoundError. The default file name is \<^verbatim>\<open>bubblemap.html\<close>, with no base
  directory.
\<close>

theorem output_path_resolved:
  assumes num: "\<forall>r \<in> set (dropna df). \<exists>x. usd r = Num x"
    and P: "P = (case base_dir of None \<Rightarrow> output_html | Some b \<Rightarrow> os_path_join b output_html)"
    and res: "res = plot_trader_bubblemap df output_html base_dir s"
  shows "\<exists>tv. total_volume (dropna df) = Inr tv \<and>
    (\<forall>q. fst res = Inr q \<longrightarrow>
       q = P \<and>
       files (snd res) (path_of P) = Some (build_network tv (build_graph (dropna df))) \<and>
       (\<forall>b. base_dir = Some b \<and> b \<noteq> [] \<longrightarrow> is_dir (snd res) (path_of b))) \<and>
    (base_dir = None \<or> base_dir = Some [] \<longrightarrow>
       P = output_html \<and>
       (fst res = Inr P \<longleftrightarrow> renderer_accepts s P) \<and>
       (\<not> check_html P \<longrightarrow> res = (Inl AssertionError, s)) \<and>
       (check_html P \<and> (\<forall>a \<in> set (ancestors (path_of P)). \<not> is_file s a) \<and> \<not> is_dir s (parent (path_of P))
          \<longrightarrow> res = (Inl FileNotFoundError, s))) \<and>
    (\<forall>b s1. base_dir = Some b \<and> b \<noteq> [] \<and> makedirs b s = Inr s1 \<longrightarrow>
       (fst res = Inr P \<longleftrightarrow> renderer_accepts s1 P) \<and>
       (\<not> check_html P \<longrightarrow> res = (Inl AssertionError, s1)) \<and>
       (check_html P \<and> (\<forall>a \<in> set (ancestors (path_of P)). \<not> is_file s1 a) \<and> \<not> is_dir s1 (parent (path_of P))
          \<longrightarrow> res = (Inl FileNotFoundError, s1))) \<and>
    (\<forall>b e. base_dir = Some b \<and> b \<noteq> [] \<and> makedirs b s = Inl e \<longrightarrow> res = (Inl e, s)) \<and>
    plot_trader_bubblemap_default df s = plot_trader_bubblemap df ''bubblemap.html'' None s"
proof -
  let ?G = "build_graph (dropna df)"
  from plot_numeric [OF num, of output_html base_dir s]
  obtain tv where tv: "total_volume (dropna df) = Inr tv"
    and out: "res = (case resolve_output output_html base_dir s of
         (Inl e, s1) \<Rightarrow> (Inl e, s1)
       | (Inr output_path, s1) \<Rightarrow>
           (case net_show (build_network tv ?G) output_path s1 of
              Inl e \<Rightarrow> (Inl e, s1)
            | Inr s2 \<Rightarrow> (Inr output_path, s2)))"
    unfolding res by blast
  have returned: "q = P \<and> files (snd res) (path_of P) = Some (build_network tv ?G) \<and>
       (\<forall>b. base_dir = Some b \<and> b \<noteq> [] \<longrightarrow> is_dir (snd res) (path_of b))"
    if q: "fst res = Inr q" for q
  proof -
    obtain r s1 where rs: "resolve_output output_html base_dir s = (r, s1)" by (cases "resolve_output output_html base_dir s")
    from q out rs obtain p where p: "r = Inr p" by (cases r) auto
    have pP: "p = P" using resolve_output_path [of output_html base_dir s p] rs p P by simp
    from q out rs p obtain s2 where s2: "net_show (build_network tv ?G) p s1 = Inr s2"
      by (cases "net_show (build_network tv ?G) p s1") auto
    have r2: "res = (Inr p, s2)" using out rs p s2 by simp
    have f: "s2 = s1\<lparr>files := (files s1)(path_of p \<mapsto> build_network tv ?G)\<rparr>"
      using net_show_Inr [OF s2] .
    have d: "is_dir s1 (path_of b)" if "base_dir = Some b" "b \<noteq> []" for b
    proof -
      from rs p that obtain "makedirs b s = Inr s1"
        by (auto simp: resolve_output_def split: sum.splits)
      then show ?thesis using makedirs_is_dir by blast
    qed
    have "files (snd res) (path_of P) = Some (build_network tv ?G)"
      using r2 f pP by simp
    moreover have "is_dir (snd res) (path_of b)" if "base_dir = Some b" "b \<noteq> []" for b
      using d [OF that] r2 f by (simp add: is_dir_def)
    moreover have "q = P" using q r2 pP by simp
    ultimately show ?thesis by blast
  qed
  have nobase: "P = output_html \<and>
       (fst res = Inr P \<longleftrightarrow> renderer_accepts s P) \<and>
       (\<not> check_html P \<longrightarrow> res = (Inl AssertionError, s)) \<and>
       (check_html P \<and> (\<forall>a \<in> set (ancestors (path_of P)). \<not> is_file s a) \<and> \<not> is_dir s (parent (path_of P))
          \<longrightarrow> res = (Inl FileNotFoundError, s))"
    if b: "base_dir = None \<or> base_dir = Some []"
  proof -
    have pP: "P = output_html" using b P by (auto simp: os_path_join_def)
    have rs: "resolve_output output_html base_dir s = (Inr P, s)"
      using resolve_output_no_base [OF b] pP by simp
    from render_outcome [OF rs out] pP show ?thesis by blast
  qed
  have base: "(fst res = Inr P \<longleftrightarrow> renderer_accepts s1 P) \<and>
       (\<not> check_html P \<longrightarrow> res = (Inl AssertionError, s1)) \<and>
       (check_html P \<and> (\<forall>a \<in> set (ancestors (path_of P)). \<not> is_file s1 a) \<and> \<not> is_dir s1 (parent (path_of P))
          \<longrightarrow> res = (Inl FileNotFoundError, s1))"
    if b: "base_dir = Some b \<and> b \<noteq> [] \<and> makedirs b s = Inr s1" for b s1
  proof -
    have rs: "resolve_output output_html base_dir s = (Inr P, s1)"
      using b P by (simp add: resolve_output_base)
    from render_outcome [OF rs out] show ?thesis by blast
  qed
  have fail: "res = (Inl e, s)" if b: "base_dir = Some b \<and> b \<noteq> [] \<and> makedirs b s = Inl e" for b e
    using b out by (simp add: resolve_output_base)
  have dflt: "plot_trader_bubblemap_default df s = plot_trader_bubblemap df ''bubblemap.html'' None s"
    by (simp add: plot_trader_bubblemap_default_def default_output_html_def)
  show ?thesis
  proof (intro exI [of _ tv] conjI)
    show "total_volume (dropna df) = Inr tv" by (rule tv)
    show "\<forall>q. fst res = Inr q \<longrightarrow>
       q = P \<and>
       files (snd res) (path_of P) = Some (build_network tv (build_graph (dropna df))) \<and>
       (\<forall>b. base_dir = Some b \<and> b \<noteq> [] \<longrightarrow> is_dir (snd res) (path_of b))"
      using returned by (intro allI impI)
    show "base_dir = None \<or> base_dir = Some [] \<longrightarrow>
       P = output_html \<and>
       (fst res = Inr P \<longleftrightarrow> renderer_accepts s P) \<and>
       (\<not> check_html P \<longrightarrow> res = (Inl AssertionError, s)) \<and>
       (check_html P \<and> (\<forall>a \<in> set (ancestors (path_of P)). \<not> is_file s a) \<and> \<not> is_dir s (parent (path_of P))
          \<longrightarrow> res = (Inl FileNotFoundError, s))"
      using nobase by (intro impI)
    show "\<forall>b s1. base_dir = Some b \<and> b \<noteq> [] \<and> makedirs b s = Inr s1 \<longrightarrow>
       (fst res = Inr P \<longleftrightarrow> renderer_accepts s1 P) \<and>
       (\<not> check_html P \<longrightarrow> res = (Inl AssertionError, s1)) \<and>
       (check_html P \<and> (\<forall>a \<in> set (ancestors (path_of P)). \<not> is_file s1 a) \<and> \<not> is_dir s1 (parent (path_of P))
          \<longrightarrow> res = (Inl FileNotFoundError, s1))"
      using base by (intro allI impI)
    show "\<forall>b e. base_dir = Some b \<and> b \<noteq> [] \<and> makedirs b s = Inl e \<longrightarrow> res = (Inl e, s)"
      using fail by (intro allI impI)
    show "plot_trader_bubblemap_default df s = plot_trader_bubblemap df ''bubblemap.html'' None s"
      by (rule dflt)
  qed
qed

theorem output_path_resolved_witness:
  "fst (plot_trader_bubblemap [edge_row ''0xA'' ''0xB'' (Num 100)] ''map.html'' (Some ''out'') empty_fs)
     = Inr ''out/map.html'' \<and>
   files (snd (plot_trader_bubblemap [edge_row ''0xA'' ''0xB'' (Num 100)] ''map.html'' (Some ''out'') empty_fs))
     (False, [''out'', ''map.html'']) \<noteq> None \<and>
   (False, [''out'']) \<in> dirs (snd (plot_trader_bubblemap [edge_row ''0xA'' ''0xB'' (Num 100)] ''map.html'' (Some ''out'') empty_fs)) \<and>
   plot_trader_bubblemap [edge_row ''0xA'' ''0xB'' (Num 100)] ''report.txt'' None empty_fs
     = (Inl AssertionError, empty_fs) \<and>
   plot_trader_bubblemap [edge_row ''0xA'' ''0xB'' (Num 100)] ''sub/map.html'' None empty_fs
     = (Inl FileNotFoundError, empty_fs)"
proof -
  let ?df = "[edge_row ''0xA'' ''0xB'' (Num 100)]"
  have num: "\<forall>r \<in> set (dropna ?df). \<exists>x. usd r = Num x" by (simp add: row_eval)
  have P: "''out/map.html'' = (case Some ''out'' of None \<Rightarrow> ''map.html'' | Some b \<Rightarrow> os_path_join b ''map.html'')"
    by (simp add: os_path_join_def)
  have mk: "makedirs ''out'' empty_fs = Inr \<lparr>dirs = {(False, [''out''])}, files = Map.empty\<rparr>"
    by (simp add: makedirs_def path_eval empty_fs_def)
  have acc: "renderer_accepts \<lparr>dirs = {(False, [''out''])}, files = Map.empty\<rparr> ''out/map.html''"
    by (simp add: renderer_accepts_def path_eval)
  have po: "path_of ''out/map.html'' = (False, [''out'', ''map.html''])" "path_of ''out'' = (False, [''out''])"
    by (simp_all add: path_eval)
  let ?res = "plot_trader_bubblemap ?df ''map.html'' (Some ''out'') empty_fs"
  note inst = output_path_resolved [OF num P refl, of empty_fs]
  have ok: "fst ?res = Inr ''out/map.html''"
    using inst mk acc by clarsimp
  have wr: "files (snd ?res) (False, [''out'', ''map.html'']) \<noteq> None"
    using inst ok by (clarsimp simp: po)
  have dr: "(False, [''out'']) \<in> dirs (snd ?res)"
    using inst ok by (clarsimp simp: po is_dir_def)
  have P2: "''report.txt'' = (case None of None \<Rightarrow> ''report.txt'' | Some b \<Rightarrow> os_path_join b ''report.txt'')"
    by simp
  have bad: "\<not> check_html ''report.txt''" by (simp add: check_html_def)
  have e1: "plot_trader_bubblemap ?df ''report.txt'' None empty_fs = (Inl AssertionError, empty_fs)"
    using output_path_resolved [OF num P2 refl, of empty_fs] bad by clarsimp
  have P3: "''sub/map.html'' = (case None of None \<Rightarrow> ''sub/map.html'' | Some b \<Rightarrow> os_path_join b ''sub/map.html'')"
    by simp
  have miss: "check_html ''sub/map.html'' \<and> (\<forall>a \<in> set (ancestors (path_of ''sub/map.html'')). \<not> is_file empty_fs a)
      \<and> \<not> is_dir empty_fs (parent (path_of ''sub/map.html''))"
    by (simp add: path_eval empty_fs_def)
  have e2: "plot_trader_bubblemap ?df ''sub/map.html'' None empty_fs = (Inl FileNotFoundError, empty_fs)"
    using output_path_resolved [OF num P3 refl, of empty_fs] miss by clarsimp
  show ?thesis using ok wr dr e1 e2 by simp
qed

section \<open>A string in the traded value\<close>

lemma group_sum_string:
  "(k, Str t) \<in> set kvs \<Longrightarrow> group_sum kvs m = Inl TypeError"
  by (induction kvs m rule: group_sum.induct) auto

lemma string_cell_raises:
  assumes "r \<in> set (dropna df)" and "usd r = Str t"
  shows "plot_trader_bubblemap df output_html base_dir s = (Inl TypeError, s)"
proof -
  have "(from_addr r, Str t) \<in> set (map (\<lambda>r. (from_addr r, usd r)) (dropna df))"
    using assms by force
  then have "group_sum (map (\<lambda>r. (from_addr r, usd r)) (dropna df)) Map.empty = Inl TypeError"
    by (rule group_sum_string)
  then show ?thesis
    by (simp add: plot_trader_bubblemap_def total_volume_def)
qed

lemma edge_weight_examples:
  "edge_weight (Num x) = Fin x"
  "edge_weight (Str ''1,234.5'') = Fin 1234.5"
  "edge_weight (Str ''N/A'') = Fin 1"
  by (simp_all add: float_eval)

text \<open>
  C6. The loop of lines 64-73 would give the string \<^verbatim>\<open>"1,234.5"\<close> the weight 1234.5
  and the string \<^verbatim>\<open>"N/A"\<close> the weight 1. But a string in \<^verbatim>\<open>total_usd_traded\<close> of a
  retained row makes the arithmetic on the volumes raise TypeError: on a row with
  either string the function raises, returns no graph and writes no file.
\<close>

theorem formatted_string_raises:
  "edge_weight (Str ''1,234.5'') = Fin 1234.5 \<and>
   edge_weight (Str ''N/A'') = Fin 1 \<and>
   plot_trader_bubblemap [edge_row ''0xA'' ''0xB'' (Str ''1,234.5'')] ''bubblemap.html'' None empty_fs
     = (Inl TypeError, empty_fs) \<and>
   plot_trader_bubblemap [edge_row ''0xA'' ''0xB'' (Str ''N/A'')] ''bubblemap.html'' None empty_fs
     = (Inl TypeError, empty_fs)"
proof -
  have r1: "\<lparr>from_addr = ''0xA'', to_addr = ''0xB'', usd = Str ''1,234.5''\<rparr>
      \<in> set (dropna [edge_row ''0xA'' ''0xB'' (Str ''1,234.5'')])"
    by (simp add: row_eval)
  have r2: "\<lparr>from_addr = ''0xA'', to_addr = ''0xB'', usd = Str ''N/A''\<rparr>
      \<in> set (dropna [edge_row ''0xA'' ''0xB'' (Str ''N/A'')])"
    by (simp add: row_eval)
  show ?thesis
    using string_cell_raises [OF r1] string_cell_raises [OF r2] edge_weight_examples
    by simp
qed

section \<open>The chain check\<close>

lemma py_lower_valid: "c \<in> set valid_chains \<Longrightarrow> py_lower c = c"
  by (auto simp: valid_chains_def py_lower_def ascii_lower_def)

text \<open>
  C10. \<^verbatim>\<open>get_evm_traders_and_connections\<close> raises ValueError exactly when the lowercased
  chain is not in \<^verbatim>\<open>valid_chains\<close>, it raises nothing else, and for every chain of the
  list it returns the query.
\<close>

theorem chain_check:
  "(get_evm_traders_and_connections evm_query chain args = Inl ValueError
      \<longleftrightarrow> py_lower chain \<notin> set valid_chains) \<and>
   (\<forall>e. get_evm_traders_and_connections evm_query chain args = Inl e \<longrightarrow> e = ValueError) \<and>
   (py_lower chain \<in> set valid_chains \<longrightarrow>
      get_evm_traders_and_connections evm_query chain args = Inr (evm_query (py_lower chain) args)) \<and>
   (chain \<in> set valid_chains \<longrightarrow>
      get_evm_traders_and_connections evm_query chain args = Inr (evm_query chain args))"
  using py_lower_valid [of chain]
  by (auto simp: get_evm_traders_and_connections_def Let_def)

theorem chain_check_witness:
  "get_evm_traders_and_connections (\<lambda>c a. c @ a) ''Base'' ''.defi'' = Inr ''base.defi'' \<and>
   get_evm_traders_and_connections (\<lambda>c a. c @ a) ''solana'' ''.defi'' = Inl ValueError \<and>
   ''bsc'' \<in> set valid_chains \<and>
   get_evm_traders_and_connections (\<lambda>c a. c @ a) ''bsc'' ''.defi'' = Inr ''bsc.defi''"
  using chain_check [of "\<lambda>c a. c @ a" "''Base''" "''.defi''"]
    chain_check [of "\<lambda>c a. c @ a" "''solana''" "''.defi''"]
    chain_check [of "\<lambda>c a. c @ a" "''bsc''" "''.defi''"]
  by (simp add: valid_chains_def py_lower_def ascii_lower_def)

end
